theory Spec2Isabelle
  imports Main
begin

section \<open>JavaScript strings\<close>

text \<open>
  A JavaScript string is modelled as a \<open>string\<close> (the list of its UTF-8 bytes). Every
  string operation of the gateway compares against ASCII text only (\<open>startsWith\<close>,
  \<open>includes\<close>, \<open>replace\<close> with a literal, the classes \<open>\w\<close> and \<open>\d\<close> of a regular
  expression without the unicode flag), and an ASCII byte never occurs inside the
  encoding of another character, so these operations give the same answer on the bytes
  as on the UTF-16 code units.
\<close>

text \<open>\<open>s.startsWith(p)\<close>\<close>

definition startsWith :: "string \<Rightarrow> string \<Rightarrow> bool" where
  "startsWith s p = (take (length p) s = p)"

text \<open>\<open>s.includes(sub)\<close>: \<open>sub\<close> occurs at some position of \<open>s\<close>.\<close>

fun includes_js :: "string \<Rightarrow> string \<Rightarrow> bool" where
  "includes_js [] sub = (sub = [])"
| "includes_js (c # cs) sub = (startsWith (c # cs) sub \<or> includes_js cs sub)"

text \<open>
  \<open>s.replace(pat, '')\<close> with a string pattern: the first occurrence of \<open>pat\<close> is removed,
  the rest of \<open>s\<close> is kept.
\<close>

fun replace_first :: "string \<Rightarrow> string \<Rightarrow> string" where
  "replace_first [] pat = []"
| "replace_first (c # cs) pat =
     (if startsWith (c # cs) pat then drop (length pat) (c # cs)
      else c # replace_first cs pat)"

text \<open>\<open>s.toUpperCase()\<close> on ASCII text (the class names it is applied to are ASCII).\<close>

definition upper_char :: "char \<Rightarrow> char" where
  "upper_char c =
     (case map_of (zip ''abcdefghijklmnopqrstuvwxyz'' ''ABCDEFGHIJKLMNOPQRSTUVWXYZ'') c of
        Some u \<Rightarrow> u
      | None \<Rightarrow> c)"

definition toUpperCase :: "string \<Rightarrow> string" where
  "toUpperCase s = map upper_char s"

text \<open>The character classes \<open>\d\<close> and \<open>\w\<close> of a regular expression.\<close>

definition is_digit :: "char \<Rightarrow> bool" where
  "is_digit c = (c \<in> set ''0123456789'')"

definition is_word :: "char \<Rightarrow> bool" where
  "is_word c =
     (c \<in> set ''abcdefghijklmnopqrstuvwxyz'' \<or> c \<in> set ''ABCDEFGHIJKLMNOPQRSTUVWXYZ''
      \<or> c \<in> set ''0123456789'' \<or> c = CHR ''_'')"

text \<open>The decimal numeral of a natural number, as \<open>String(n)\<close> writes it.\<close>

definition digit_char :: "nat \<Rightarrow> char" where
  "digit_char d = ''0123456789'' ! (d mod 10)"

fun decimal :: "nat \<Rightarrow> string" where
  "decimal n = (if n < 10 then [digit_char n] else decimal (n div 10) @ [digit_char (n mod 10)])"

section \<open>Identifier codec\<close>

text \<open>
  \<open>toGid(type: string, id: string | number)\<close>. A number id is modelled at its integer
  values of magnitude below \<open>10^21\<close>, where \<open>String(id)\<close> is the plain decimal numeral
  with a minus sign for a negative number; fractions and numbers that \<open>String\<close> writes
  in exponent form are not values of \<open>ident\<close>.
\<close>

datatype ident = IdStr string | IdNum int

fun String_js :: "ident \<Rightarrow> string" where
  "String_js (IdStr s) = s"
| "String_js (IdNum n) = (if n < 0 then CHR ''-'' # decimal (nat (- n)) else decimal (nat n))"

definition gid_prefix :: string where
  "gid_prefix = ''gid://shopify/''"

definition toGid :: "string \<Rightarrow> ident \<Rightarrow> string" where
  "toGid ty i =
     (let idStr = String_js i in
      if startsWith idStr gid_prefix then idStr
      else gid_prefix @ ty @ ''/'' @ idStr)"

text \<open>
  \<open>gid.match(/gid:\/\/shopify\/\w+\/(\d+)/)\<close>: the expression is not anchored, so the
  matcher tries every start position from the left and stops at the first that matches.
  At one position it reads the literal \<open>gid://shopify/\<close>, then \<open>\w+\<close> greedily: the
  longest run of word characters first, then each shorter one (backtracking), as long as
  at least one character is taken; after it the literal \<open>/\<close> and \<open>(\d+)\<close>, which takes the
  longest run of digits and needs at least one. The result is the text of group 1.
\<close>

fun first_some :: "('a \<Rightarrow> 'b option) \<Rightarrow> 'a list \<Rightarrow> 'b option" where
  "first_some f [] = None"
| "first_some f (x # xs) = (case f x of Some y \<Rightarrow> Some y | None \<Rightarrow> first_some f xs)"

text \<open>The rest of the pattern after \<open>\w+\<close>: \<open>\/(\d+)\<close>.\<close>

definition slash_digits :: "string \<Rightarrow> string option" where
  "slash_digits r =
     (case r of
        [] \<Rightarrow> None
      | c # u \<Rightarrow>
          if c = CHR ''/'' then
            (let d = takeWhile is_digit u in if d = [] then None else Some d)
          else None)"

definition match_here :: "string \<Rightarrow> string option" where
  "match_here s =
     (if startsWith s gid_prefix then
        (let r = drop (length gid_prefix) s;
             n = length (takeWhile is_word r)
         in first_some (\<lambda>k. slash_digits (drop k r)) (rev [1..<Suc n]))
      else None)"

fun gid_match :: "string \<Rightarrow> string option" where
  "gid_match [] = match_here []"
| "gid_match (c # cs) =
     (case match_here (c # cs) of Some d \<Rightarrow> Some d | None \<Rightarrow> gid_match cs)"

definition fromGid :: "string \<Rightarrow> string" where
  "fromGid gid = (case gid_match gid of Some d \<Rightarrow> d | None \<Rightarrow> gid)"

section \<open>Thrown values and the error classes\<close>

text \<open>\<open>ShopifyUserError = { field: string[] | null, message: string, code?: string }\<close>\<close>

record ShopifyUserError =
  field :: "string list option"
  message :: string
  code :: "string option"

text \<open>
  What a \<open>catch\<close> can receive: an \<open>Error\<close> that is none of the client's classes (with its
  message), an instance of one of the five classes the client declares (each extends
  \<open>ShopifyAPIError\<close>, which extends \<open>Error\<close>), or a value that is no \<open>Error\<close> at all.
\<close>

datatype thrown =
    JsError string
  | ShopifyAPIError string
  | ShopifyRateLimitError string
  | ShopifyAuthenticationError string
  | ShopifyNotFoundError string
  | ShopifyValidationError string "ShopifyUserError list"
  | NonError

text \<open>
  \<open>error instanceof Error\<close>, \<open>error instanceof ShopifyAPIError\<close>,
  \<open>error instanceof ShopifyValidationError\<close>
\<close>

fun instanceof_Error :: "thrown \<Rightarrow> bool" where
  "instanceof_Error NonError = False"
| "instanceof_Error _ = True"

fun instanceof_ShopifyAPIError :: "thrown \<Rightarrow> bool" where
  "instanceof_ShopifyAPIError NonError = False"
| "instanceof_ShopifyAPIError (JsError m) = False"
| "instanceof_ShopifyAPIError _ = True"

fun instanceof_ShopifyValidationError :: "thrown \<Rightarrow> bool" where
  "instanceof_ShopifyValidationError (ShopifyValidationError m ues) = True"
| "instanceof_ShopifyValidationError _ = False"

text \<open>\<open>error.userErrors\<close> of a \<open>ShopifyValidationError\<close>\<close>

fun error_userErrors :: "thrown \<Rightarrow> ShopifyUserError list" where
  "error_userErrors (ShopifyValidationError m ues) = ues"
| "error_userErrors _ = []"

text \<open>\<open>error.message\<close> of an \<open>Error\<close>\<close>

fun error_message :: "thrown \<Rightarrow> string" where
  "error_message (JsError m) = m"
| "error_message (ShopifyAPIError m) = m"
| "error_message (ShopifyRateLimitError m) = m"
| "error_message (ShopifyAuthenticationError m) = m"
| "error_message (ShopifyNotFoundError m) = m"
| "error_message (ShopifyValidationError m ues) = m"
| "error_message NonError = []"

text \<open>\<open>error.name\<close>, as the constructor of each class sets it.\<close>

fun error_name :: "thrown \<Rightarrow> string" where
  "error_name (JsError m) = ''Error''"
| "error_name (ShopifyAPIError m) = ''ShopifyAPIError''"
| "error_name (ShopifyRateLimitError m) = ''ShopifyRateLimitError''"
| "error_name (ShopifyAuthenticationError m) = ''ShopifyAuthenticationError''"
| "error_name (ShopifyNotFoundError m) = ''ShopifyNotFoundError''"
| "error_name (ShopifyValidationError m ues) = ''ShopifyValidationError''"
| "error_name NonError = []"

text \<open>\<open>ShopifyGraphQLClient.handleError\<close>\<close>

definition handleError :: "thrown \<Rightarrow> thrown" where
  "handleError error =
     (if instanceof_Error error then
        (if includes_js (error_message error) ''Throttled'' then
           ShopifyRateLimitError ''Rate limit exceeded. Please retry after a moment.''
         else if includes_js (error_message error) ''401''
                 \<or> includes_js (error_message error) ''Unauthorized'' then
           ShopifyAuthenticationError ''Invalid access token or authentication failed.''
         else if includes_js (error_message error) ''404''
                 \<or> includes_js (error_message error) ''not found'' then
           ShopifyNotFoundError (error_message error)
         else ShopifyAPIError (error_message error))
      else ShopifyAPIError ''An unknown error occurred'')"

section \<open>Client construction\<close>

record ShopifyConfig =
  storeUrl :: string
  accessToken :: string
  apiVersion :: string

text \<open>
  \<open>Partial<ShopifyConfig>\<close>: each member may be missing. The environment
  \<open>process.env\<close> is a map from variable names to strings.
\<close>

record PartialConfig =
  storeUrl_opt :: "string option"
  accessToken_opt :: "string option"
  apiVersion_opt :: "string option"

definition DEFAULT_API_VERSION :: string where
  "DEFAULT_API_VERSION = ''2025-01''"

text \<open>
  \<open>a || b\<close> on values that are a string or \<open>undefined\<close>: \<open>a\<close> when it is a non-empty
  string, \<open>b\<close> otherwise.
\<close>

definition or_else :: "string option \<Rightarrow> string option \<Rightarrow> string option" where
  "or_else a b = (case a of Some s \<Rightarrow> (if s = [] then b else Some s) | None \<Rightarrow> b)"

text \<open>The last operand of each chain is a string, so the chain's value is one.\<close>

definition or_default :: "string option \<Rightarrow> string \<Rightarrow> string" where
  "or_default a d = (case a of Some s \<Rightarrow> (if s = [] then d else s) | None \<Rightarrow> d)"

definition resolveConfig :: "PartialConfig \<Rightarrow> (string \<rightharpoonup> string) \<Rightarrow> ShopifyConfig" where
  "resolveConfig config env =
     \<lparr> storeUrl = or_default (or_else (storeUrl_opt config) (env ''SHOPIFY_STORE_URL'')) [],
       accessToken =
         or_default (or_else (accessToken_opt config) (env ''SHOPIFY_ACCESS_TOKEN'')) [],
       apiVersion =
         or_default (or_else (apiVersion_opt config) (env ''SHOPIFY_API_VERSION''))
           DEFAULT_API_VERSION \<rparr>"

text \<open>\<open>validateConfig\<close>: \<open>None\<close> when it returns, the thrown \<open>Error\<close> otherwise.\<close>

definition validateConfig :: "ShopifyConfig \<Rightarrow> thrown option" where
  "validateConfig config =
     (if storeUrl config = [] then
        Some (JsError ''SHOPIFY_STORE_URL is required. Set it as an environment variable or pass it in the config.'')
      else if accessToken config = [] then
        Some (JsError ''SHOPIFY_ACCESS_TOKEN is required. Set it as an environment variable or pass it in the config.'')
      else None)"

text \<open>
  \<open>.replace(/^https?:\/\//, '')\<close>: at the start of the string only, \<open>http\<close>, then an
  optional \<open>s\<close> (taken when it is there, given back when \<open>://\<close> does not follow it),
  then \<open>://\<close>. Without a match the string is unchanged.
\<close>

definition strip_scheme :: "string \<Rightarrow> string" where
  "strip_scheme s =
     (if startsWith s ''http'' then
        (let r = drop 4 s in
         if startsWith r ''s'' \<and> startsWith (drop 1 r) ''://'' then drop 4 r
         else if startsWith r ''://'' then drop 3 r
         else s)
      else s)"

text \<open>
  \<open>.replace(/\/$/, '')\<close>: without the multiline flag \<open>$\<close> is the end of the string, so
  the only possible match is a \<open>/\<close> that is the last character.
\<close>

definition strip_trailing_slash :: "string \<Rightarrow> string" where
  "strip_trailing_slash s = (if s \<noteq> [] \<and> last s = CHR ''/'' then butlast s else s)"

definition buildEndpoint :: "ShopifyConfig \<Rightarrow> string" where
  "buildEndpoint config =
     (let url = strip_trailing_slash (strip_scheme (storeUrl config)) in
      ''https://'' @ url @ ''/admin/api/'' @ apiVersion config @ ''/graphql.json'')"

text \<open>
  The constructed client: its configuration and the transport it creates
  (\<open>new GraphQLClient(endpoint, { headers })\<close>).
\<close>

record Client =
  config :: ShopifyConfig
  endpoint :: string
  headers :: "(string \<times> string) list"

definition new_ShopifyGraphQLClient ::
  "PartialConfig \<Rightarrow> (string \<rightharpoonup> string) \<Rightarrow> thrown + Client" where
  "new_ShopifyGraphQLClient partial env =
     (let cfg = resolveConfig partial env in
      case validateConfig cfg of
        Some e \<Rightarrow> Inl e
      | None \<Rightarrow>
          Inr \<lparr> config = cfg,
                endpoint = buildEndpoint cfg,
                headers = [(''X-Shopify-Access-Token'', accessToken cfg),
                           (''Content-Type'', ''application/json'')] \<rparr>)"

section \<open>The transport, query and mutate\<close>

text \<open>
  A value of the request's variables: \<open>null\<close>, a string, or anything else. The variables
  are a map from names to values.
\<close>

datatype 'x var_value = Null | Str string | Val 'x

type_synonym 'x variables = "string \<rightharpoonup> 'x var_value"

text \<open>
  \<open>this.client.request(document, variables)\<close> is the one call that leaves the program.
  It is a parameter: from the state \<open>'s\<close> of the world behind the transport (the server,
  or a mock that serves a sequence of responses) it either throws or resolves to a
  response \<open>'t\<close>, and leaves a new state.
\<close>

type_synonym ('s, 'x, 't) transport =
  "'s \<Rightarrow> string \<Rightarrow> 'x variables option \<Rightarrow> (thrown + 't) \<times> 's"

text \<open>\<open>query\<close>: the response, or the classified error thrown instead.\<close>

definition query ::
  "('s, 'x, 't) transport \<Rightarrow> string \<Rightarrow> 'x variables option \<Rightarrow> 's \<Rightarrow> (thrown + 't) \<times> 's" where
  "query request document variables s =
     (case request s document variables of
        (Inl error, s') \<Rightarrow> (Inl (handleError error), s')
      | (Inr response, s') \<Rightarrow> (Inr response, s'))"

text \<open>
  A mutation response is an object: the list of its own members in the order
  \<open>Object.keys\<close> gives them. The member under the result key is cast by \<open>mutate\<close> to
  \<open>{ userErrors?: ShopifyUserError[]; [key: string]: unknown }\<close>; the values of that
  position are \<open>null\<close> or \<open>undefined\<close> (\<open>Nullish\<close>), a value that is no object and so has
  no \<open>userErrors\<close> (\<open>Scalar\<close>), or an object (\<open>Obj\<close>) with its \<open>userErrors\<close> array
  (\<open>None\<close> when the member is missing or nullish) and its other members.
\<close>

datatype ('u, 'x) root_value = Nullish | Scalar 'x | Obj "'u list option" 'x

type_synonym ('u, 'x) response = "(string \<times> ('u, 'x) root_value) list"

record ('u, 'x) MutationResult =
  success :: bool
  data :: "('u, 'x) response option"
  userErrors :: "'u list"

text \<open>
  \<open>Object.keys(response)[0]\<close> used as a property key: the first key, and for an object
  without members \<open>undefined\<close>, which a property access reads as the key \<open>"undefined"\<close>.
\<close>

definition first_key :: "('u, 'x) response \<Rightarrow> string" where
  "first_key response = (case response of [] \<Rightarrow> ''undefined'' | (k, v) # rest \<Rightarrow> k)"

text \<open>
  \<open>mutationName || Object.keys(response)[0]\<close>: a missing or empty \<open>mutationName\<close> is
  falsy.
\<close>

definition result_key :: "string option \<Rightarrow> ('u, 'x) response \<Rightarrow> string" where
  "result_key mutationName response =
     (case mutationName of
        Some k \<Rightarrow> (if k = [] then first_key response else k)
      | None \<Rightarrow> first_key response)"

text \<open>
  \<open>result?.userErrors\<close>, where \<open>result = response[key]\<close>: \<open>undefined\<close> when the key is
  missing (a name that only \<open>Object.prototype\<close> has gives a function or an object without
  \<open>userErrors\<close>, so \<open>undefined\<close> as well), when the value is nullish or no object, or
  when the object has no \<open>userErrors\<close>.
\<close>

definition result_userErrors :: "('u, 'x) response \<Rightarrow> string \<Rightarrow> 'u list option" where
  "result_userErrors response key =
     (case map_of response key of
        Some (Obj ues rest) \<Rightarrow> ues
      | _ \<Rightarrow> None)"

text \<open>\<open>mutate\<close>. Its \<open>catch\<close> rethrows the classified error.\<close>

definition mutate ::
  "('s, 'x, ('u, 'y) response) transport \<Rightarrow> string \<Rightarrow> 'x variables option \<Rightarrow> string option \<Rightarrow> 's
     \<Rightarrow> (thrown + ('u, 'y) MutationResult) \<times> 's" where
  "mutate request mutation variables mutationName s =
     (case request s mutation variables of
        (Inl error, s') \<Rightarrow> (Inl (handleError error), s')
      | (Inr response, s') \<Rightarrow>
          (let key = result_key mutationName response in
           case result_userErrors response key of
             Some ues \<Rightarrow>
               if length ues > 0 then
                 (Inr \<lparr> success = False, data = None, userErrors = ues \<rparr>, s')
               else (Inr \<lparr> success = True, data = Some response, userErrors = [] \<rparr>, s')
           | None \<Rightarrow> (Inr \<lparr> success = True, data = Some response, userErrors = [] \<rparr>, s')))"

section \<open>queryAll\<close>

text \<open>What \<open>extractNodes\<close> returns.\<close>

record PageRef =
  hasNextPage :: bool
  endCursor :: "string option"

record 'n Page =
  nodes :: "'n list"
  pageInfo :: PageRef

text \<open>\<open>{ ...variables, after: cursor }\<close>\<close>

definition with_after :: "'x variables \<Rightarrow> string option \<Rightarrow> 'x variables" where
  "with_after variables cursor =
     variables(''after'' \<mapsto> (case cursor of None \<Rightarrow> Null | Some c \<Rightarrow> Str c))"

definition pagination_warning :: string where
  "pagination_warning = ''Query pagination exceeded 10000 items, stopping.''"

text \<open>
  One pass through the body of \<open>while (hasNextPage)\<close>, entered with \<open>hasNextPage\<close> true
  (it is initialised to \<open>true\<close>, so the body runs at least once). The state of the loop
  is \<open>allNodes\<close> and \<open>cursor\<close>; \<open>console\<close> collects what \<open>console.warn\<close> prints and \<open>s\<close> is
  the state behind the transport. The result is \<open>None\<close> when the loop never ends,
  otherwise the array returned or the value thrown (by \<open>query\<close>, or by \<open>extractNodes\<close>,
  which is the caller's function and may throw), with the console and the state.
\<close>

partial_function (option) queryAll_loop ::
  "('s, 'x, 't) transport \<Rightarrow> string \<Rightarrow> 'x variables \<Rightarrow> ('t \<Rightarrow> thrown + 'n Page)
     \<Rightarrow> 'n list \<Rightarrow> string option \<Rightarrow> string list \<Rightarrow> 's
     \<Rightarrow> ((thrown + 'n list) \<times> string list \<times> 's) option" where
  "queryAll_loop request document variables extractNodes allNodes cursor console s =
     (case query request document (Some (with_after variables cursor)) s of
        (Inl error, s') \<Rightarrow> Some (Inl error, console, s')
      | (Inr response, s') \<Rightarrow>
          (case extractNodes response of
             Inl error \<Rightarrow> Some (Inl error, console, s')
           | Inr page \<Rightarrow>
               (let allNodes' = allNodes @ nodes page;
                    hasNextPage' = hasNextPage (pageInfo page);
                    cursor' = endCursor (pageInfo page)
                in if length allNodes' > 10000 then
                     Some (Inr allNodes', console @ [pagination_warning], s')
                   else if hasNextPage' then
                     queryAll_loop request document variables extractNodes allNodes' cursor'
                       console s'
                   else Some (Inr allNodes', console, s'))))"

declare queryAll_loop.simps [code]

definition queryAll ::
  "('s, 'x, 't) transport \<Rightarrow> string \<Rightarrow> 'x variables \<Rightarrow> ('t \<Rightarrow> thrown + 'n Page) \<Rightarrow> 's
     \<Rightarrow> ((thrown + 'n list) \<times> string list \<times> 's) option" where
  "queryAll request document variables extractNodes s =
     queryAll_loop request document variables extractNodes [] None [] s"

section \<open>Pagination utilities\<close>

text \<open>
  \<open>PageInfo\<close> has the two members \<open>queryAll\<close> reads and two more; a
  \<open>PaginatedResult\<close> is \<open>{ items, pageInfo }\<close>.
\<close>

record PageInfo = PageRef +
  hasPreviousPage :: bool
  startCursor :: "string option"

record 'n PaginatedResult =
  items :: "'n list"
  pageInfo :: PageInfo

text \<open>\<open>createPageInfo\<close>\<close>

definition createPageInfo :: "bool \<Rightarrow> bool \<Rightarrow> string option \<Rightarrow> string option \<Rightarrow> PageInfo" where
  "createPageInfo hasNext hasPrevious start end' =
     \<lparr> hasNextPage = hasNext, endCursor = end', hasPreviousPage = hasPrevious,
       startCursor = start \<rparr>"

text \<open>\<open>combinePaginatedResults\<close>\<close>

definition combinePaginatedResults :: "'n PaginatedResult list \<Rightarrow> 'n PaginatedResult" where
  "combinePaginatedResults results =
     (if length results = 0 then
        \<lparr> items = [], pageInfo = createPageInfo False False None None \<rparr>
      else
        (let allItems = concat (map items results);
             firstResult = hd results;
             lastResult = last results
         in \<lparr> items = allItems,
              pageInfo =
                \<lparr> hasNextPage = hasNextPage (pageInfo lastResult),
                  endCursor = endCursor (pageInfo lastResult),
                  hasPreviousPage = hasPreviousPage (pageInfo firstResult),
                  startCursor = startCursor (pageInfo firstResult) \<rparr> \<rparr>))"

text \<open>
  The two shapes the pagination code hands to a caller: the array \<open>N[]\<close> that \<open>queryAll\<close>
  resolves to, and the \<open>PaginatedResult\<close> of the utilities. \<open>pageInfo_of\<close> reads the member
  \<open>pageInfo\<close> of such a value; an array has none.
\<close>

datatype 'n returned = ArrayOf "'n list" | Paginated "'n PaginatedResult"

fun pageInfo_of :: "'n returned \<Rightarrow> PageInfo option" where
  "pageInfo_of (ArrayOf xs) = None"
| "pageInfo_of (Paginated r) = Some (pageInfo r)"

section \<open>Tool results and the handler-layer error converter\<close>

text \<open>
  \<open>ToolError = { code, message, details? }\<close> and
  \<open>ToolResult = { success, data?, error? }\<close>; \<open>details\<close> is a \<open>Record<string, unknown>\<close>,
  here the list of its members.
\<close>

record 'd ToolError =
  code :: string
  message :: string
  details :: "(string \<times> 'd) list option"

record ('a, 'd) ToolResult =
  success :: bool
  data :: "'a option"
  error :: "'d ToolError option"

definition successResult :: "'a \<Rightarrow> ('a, 'd) ToolResult" where
  "successResult d = \<lparr> success = True, data = Some d, error = None \<rparr>"

definition errorResult ::
  "string \<Rightarrow> string \<Rightarrow> (string \<times> 'd) list option \<Rightarrow> ('a, 'd) ToolResult" where
  "errorResult c m ds =
     \<lparr> success = False, data = None,
       error = Some \<lparr> code = c, message = m, details = ds \<rparr> \<rparr>"

text \<open>\<open>xs.join(sep)\<close>\<close>

fun join :: "string \<Rightarrow> string list \<Rightarrow> string" where
  "join sep [] = []"
| "join sep [x] = x"
| "join sep (x # y # ys) = x @ sep @ join sep (y # ys)"

text \<open>\<open>formatUserErrors\<close>: an array \<open>field\<close> is truthy also when it is empty.\<close>

definition formatUserErrors ::
  "ShopifyUserError list \<Rightarrow> ('a, ShopifyUserError list) ToolResult" where
  "formatUserErrors ues =
     (let messages =
            map (\<lambda>e. (case field e of Some f \<Rightarrow> join ''.'' f | None \<Rightarrow> ''unknown'')
                        @ '': '' @ ShopifyUserError.message e) ues
      in errorResult ''VALIDATION_ERROR'' (join ''; '' messages) (Some [(''userErrors'', ues)]))"

text \<open>\<open>handleToolError\<close>\<close>

definition handleToolError :: "thrown \<Rightarrow> ('a, ShopifyUserError list) ToolResult" where
  "handleToolError err =
     (if instanceof_ShopifyValidationError err then formatUserErrors (error_userErrors err)
      else if instanceof_ShopifyAPIError err then
        (let c = toUpperCase
                   (replace_first (replace_first (error_name err) ''Shopify'') ''Error'')
         in errorResult (if c = [] then ''API_ERROR'' else c) (error_message err) None)
      else if instanceof_Error err then
        errorResult ''UNKNOWN_ERROR'' (error_message err) None
      else errorResult ''UNKNOWN_ERROR'' ''An unexpected error occurred'' None)"


text \<open>The table \<open>ErrorCodes\<close> of the handler layer.\<close>

definition ErrorCodes :: "string list" where
  "ErrorCodes =
     [''NOT_FOUND'', ''VALIDATION_ERROR'', ''AUTHENTICATION_ERROR'', ''RATE_LIMIT_ERROR'',
      ''API_ERROR'', ''INVALID_INPUT'', ''UNKNOWN_ERROR'']"

section \<open>Mock page sources\<close>

text \<open>
  Transports and extractors that stand for a mocked page source. \<open>cursor_server\<close>
  answers a request with the value of the variable \<open>after\<close> it was sent, so the page
  extracted from its answer depends on the cursor only, as with a server;
  \<open>numbered_server\<close> answers the \<open>n\<close>-th request with \<open>n\<close>, whatever the cursor, as a mock
  that serves a fixed sequence of pages does.
\<close>

definition cursor_server :: "('s, 'x, 'x var_value option) transport" where
  "cursor_server s document variables =
     (Inr (case variables of None \<Rightarrow> None | Some vs \<Rightarrow> vs ''after''), s)"


text \<open>Three pages of sizes 2, 2 and 1, linked by the cursors \<open>c1\<close> and \<open>c2\<close>.\<close>

definition three_pages :: "'x var_value option \<Rightarrow> thrown + nat Page" where
  "three_pages after =
     Inr (if after = Some Null then
            \<lparr> nodes = [30, 10], pageInfo = \<lparr> hasNextPage = True, endCursor = Some ''c1'' \<rparr> \<rparr>
          else if after = Some (Str ''c1'') then
            \<lparr> nodes = [50, 20], pageInfo = \<lparr> hasNextPage = True, endCursor = Some ''c2'' \<rparr> \<rparr>
          else
            \<lparr> nodes = [40], pageInfo = \<lparr> hasNextPage = False, endCursor = None \<rparr> \<rparr>)"




section \<open>Notions used to state the properties\<close>

text \<open>A message contains \<open>sub\<close>: \<open>sub\<close> stands somewhere between a prefix and a suffix.\<close>

definition mentions :: "string \<Rightarrow> string \<Rightarrow> bool" where
  "mentions m sub = (\<exists>pre post. m = pre @ sub @ post)"

text \<open>
  The result key of a mutation: the supplied name (an empty name counts as not supplied,
  as \<open>||\<close> reads it), or else the first top-level key of the response.
\<close>

definition selected_key :: "string option \<Rightarrow> ('u, 'x) response \<Rightarrow> string \<Rightarrow> bool" where
  "selected_key mutationName response k =
     ((mutationName = Some k \<and> k \<noteq> [])
      \<or> ((mutationName = None \<or> mutationName = Some []) \<and> (\<exists>v rest. response = (k, v) # rest)))"

text \<open>\<open>es\<close> is the \<open>userErrors\<close> array of the object under the key \<open>k\<close>.\<close>

definition userErrors_under :: "('u, 'x) response \<Rightarrow> string \<Rightarrow> 'u list \<Rightarrow> bool" where
  "userErrors_under response k es = (\<exists>rest. map_of response k = Some (Obj (Some es) rest))"

text \<open>
  The language of the pattern \<open>gid:\/\/shopify\/\w+\/(\d+)\<close>, stated without a matcher:
  \<open>matches_here s\<close> when a match starts at the first character of \<open>s\<close>, and
  \<open>matches_pattern g\<close> when a match starts somewhere in \<open>g\<close>.
\<close>

definition matches_here :: "string \<Rightarrow> bool" where
  "matches_here s =
     (\<exists>w d rest. s = gid_prefix @ w @ ''/'' @ d @ rest
        \<and> w \<noteq> [] \<and> list_all is_word w \<and> d \<noteq> [] \<and> list_all is_digit d)"

definition matches_pattern :: "string \<Rightarrow> bool" where
  "matches_pattern g = (\<exists>pre s. g = pre @ s \<and> matches_here s)"


section \<open>Properties\<close>

lemma startsWith_iff: "startsWith s p \<longleftrightarrow> (\<exists>r. s = p @ r)"
  unfolding startsWith_def
  by (metis append_eq_conv_conj append_take_drop_id)

lemma includes_js_iff: "includes_js s sub \<longleftrightarrow> (\<exists>pre post. s = pre @ sub @ post)"
proof (induction s)
  case Nil
  then show ?case by auto
next
  case (Cons c cs)
  show ?case
  proof
    assume "includes_js (c # cs) sub"
    then consider "startsWith (c # cs) sub" | "includes_js cs sub" by auto
    then show "\<exists>pre post. c # cs = pre @ sub @ post"
    proof cases
      case 1
      then obtain r where "c # cs = sub @ r" by (auto simp: startsWith_iff)
      then have "c # cs = [] @ sub @ r" by simp
      then show ?thesis by blast
    next
      case 2
      then obtain pre post where "cs = pre @ sub @ post" using Cons.IH by blast
      then have "c # cs = (c # pre) @ sub @ post" by simp
      then show ?thesis by blast
    qed
  next
    assume "\<exists>pre post. c # cs = pre @ sub @ post"
    then obtain pre post where eq: "c # cs = pre @ sub @ post" by blast
    show "includes_js (c # cs) sub"
    proof (cases pre)
      case Nil
      with eq have "startsWith (c # cs) sub" by (auto simp: startsWith_iff)
      then show ?thesis by simp
    next
      case (Cons p ps)
      with eq have "cs = ps @ sub @ post" by simp
      then have "includes_js cs sub" using Cons.IH by blast
      then show ?thesis by simp
    qed
  qed
qed

lemma mentions_code: "mentions m sub = includes_js m sub"
  by (simp add: mentions_def includes_js_iff)

subsection \<open>Error classification\<close>

text \<open>
  C5. For every thrown \<open>Error\<close>, \<open>handleError\<close> classifies by the substrings of its
  message, in this order: \<open>Throttled\<close> gives the rate-limit error; else \<open>401\<close> or
  \<open>Unauthorized\<close> gives the authentication error; else \<open>404\<close> or \<open>not found\<close> gives the
  not-found error (with the message kept); every other message gives the generic API
  error (with the message kept).
\<close>

theorem handleError_classification:
  assumes "instanceof_Error e"
  shows "(mentions (error_message e) ''Throttled'' \<longrightarrow>
            handleError e = ShopifyRateLimitError ''Rate limit exceeded. Please retry after a moment.'')
       \<and> (\<not> mentions (error_message e) ''Throttled''
            \<and> (mentions (error_message e) ''401'' \<or> mentions (error_message e) ''Unauthorized'') \<longrightarrow>
            handleError e = ShopifyAuthenticationError ''Invalid access token or authentication failed.'')
       \<and> (\<not> mentions (error_message e) ''Throttled''
            \<and> \<not> mentions (error_message e) ''401'' \<and> \<not> mentions (error_message e) ''Unauthorized''
            \<and> (mentions (error_message e) ''404'' \<or> mentions (error_message e) ''not found'') \<longrightarrow>
            handleError e = ShopifyNotFoundError (error_message e))
       \<and> (\<not> mentions (error_message e) ''Throttled''
            \<and> \<not> mentions (error_message e) ''401'' \<and> \<not> mentions (error_message e) ''Unauthorized''
            \<and> \<not> mentions (error_message e) ''404'' \<and> \<not> mentions (error_message e) ''not found'' \<longrightarrow>
            handleError e = ShopifyAPIError (error_message e))"
  using assms by (simp add: handleError_def mentions_code)

text \<open>
  One message for each branch; the first two also contain a substring of a later branch,
  and the last differs from \<open>Throttled\<close> in case only.
\<close>

theorem handleError_classification_witness:
  "handleError (JsError ''GraphQL Error (Code: 429): Throttled 401'')
     = ShopifyRateLimitError ''Rate limit exceeded. Please retry after a moment.''
   \<and> handleError (JsError ''HTTP 401 not found'')
     = ShopifyAuthenticationError ''Invalid access token or authentication failed.''
   \<and> handleError (JsError ''Unauthorized'')
     = ShopifyAuthenticationError ''Invalid access token or authentication failed.''
   \<and> handleError (JsError ''Product not found'') = ShopifyNotFoundError ''Product not found''
   \<and> handleError (JsError ''HTTP 404'') = ShopifyNotFoundError ''HTTP 404''
   \<and> handleError (JsError ''throttled: bad gateway'') = ShopifyAPIError ''throttled: bad gateway''"
  using handleError_classification [of "JsError ''GraphQL Error (Code: 429): Throttled 401''"]
        handleError_classification [of "JsError ''HTTP 401 not found''"]
        handleError_classification [of "JsError ''Unauthorized''"]
        handleError_classification [of "JsError ''Product not found''"]
        handleError_classification [of "JsError ''HTTP 404''"]
        handleError_classification [of "JsError ''throttled: bad gateway''"]
  by (simp add: mentions_code startsWith_def)

subsection \<open>The endpoint\<close>

lemma strip_scheme_https: "strip_scheme (''https://'' @ r) = r"
  by (simp add: strip_scheme_def startsWith_def)

lemma strip_scheme_http: "strip_scheme (''http://'' @ r) = r"
  by (simp add: strip_scheme_def startsWith_def)

lemma strip_scheme_none:
  assumes "\<not> startsWith u ''https://''" and "\<not> startsWith u ''http://''"
  shows "strip_scheme u = u"
proof (cases "startsWith u ''http''")
  case False
  then show ?thesis by (simp add: strip_scheme_def)
next
  case True
  then obtain r where u: "u = ''http'' @ r" by (auto simp: startsWith_iff)
  have 1: "\<not> startsWith r ''://''"
    using assms(2) unfolding u startsWith_iff by auto
  have 2: "\<not> (startsWith r ''s'' \<and> startsWith (drop 1 r) ''://'')"
    using assms(1) unfolding u startsWith_iff by auto
  have d: "drop 4 u = r" by (simp add: u)
  show ?thesis using 1 2 True by (auto simp: strip_scheme_def d Let_def)
qed

lemma strip_trailing_slash_snoc: "strip_trailing_slash (h @ ''/'') = h"
  by (simp add: strip_trailing_slash_def)

lemma strip_trailing_slash_none:
  "h = [] \<or> last h \<noteq> CHR ''/'' \<Longrightarrow> strip_trailing_slash h = h"
  by (auto simp: strip_trailing_slash_def)

text \<open>
  C9. A client constructed with \<open>storeUrl = "shop.myshopify.com"\<close>,
  \<open>accessToken = "tok"\<close> and no \<open>apiVersion\<close>, in an environment that sets no API version,
  has the endpoint \<open>https://shop.myshopify.com/admin/api/2025-01/graphql.json\<close>. In
  general the endpoint is built from the store URL without a leading \<open>http://\<close> or
  \<open>https://\<close> and without a trailing slash: for a store URL \<open>scheme @ h @ slash\<close>, with
  \<open>scheme\<close> one of the two schemes or nothing and \<open>slash\<close> a slash or nothing, it is
  \<open>https://h/admin/api/{apiVersion}/graphql.json\<close>.
\<close>

theorem endpoint_of_store_url:
  "(env ''SHOPIFY_API_VERSION'' = None \<or> env ''SHOPIFY_API_VERSION'' = Some [] \<longrightarrow>
      map_sum id endpoint
        (new_ShopifyGraphQLClient
           \<lparr> storeUrl_opt = Some ''shop.myshopify.com'', accessToken_opt = Some ''tok'',
             apiVersion_opt = None \<rparr> env)
      = Inr ''https://shop.myshopify.com/admin/api/2025-01/graphql.json'')
   \<and> ((scheme = ''https://'' \<or> scheme = ''http://''
         \<or> (scheme = [] \<and> \<not> startsWith (h @ slash) ''https://'' \<and> \<not> startsWith (h @ slash) ''http://''))
        \<and> (slash = ''/'' \<or> (slash = [] \<and> (h = [] \<or> last h \<noteq> CHR ''/''))) \<longrightarrow>
        buildEndpoint \<lparr> storeUrl = scheme @ h @ slash, accessToken = token, apiVersion = version \<rparr>
          = ''https://'' @ h @ ''/admin/api/'' @ version @ ''/graphql.json'')"
proof (intro conjI impI)
  assume "env ''SHOPIFY_API_VERSION'' = None \<or> env ''SHOPIFY_API_VERSION'' = Some []"
  then show "map_sum id endpoint
        (new_ShopifyGraphQLClient
           \<lparr> storeUrl_opt = Some ''shop.myshopify.com'', accessToken_opt = Some ''tok'',
             apiVersion_opt = None \<rparr> env)
      = Inr ''https://shop.myshopify.com/admin/api/2025-01/graphql.json''"
    by (auto simp: new_ShopifyGraphQLClient_def resolveConfig_def or_else_def or_default_def
        validateConfig_def buildEndpoint_def strip_scheme_def strip_trailing_slash_def
        startsWith_def DEFAULT_API_VERSION_def)
next
  assume a: "(scheme = ''https://'' \<or> scheme = ''http://''
         \<or> (scheme = [] \<and> \<not> startsWith (h @ slash) ''https://'' \<and> \<not> startsWith (h @ slash) ''http://''))
        \<and> (slash = ''/'' \<or> (slash = [] \<and> (h = [] \<or> last h \<noteq> CHR ''/'')))"
  have 1: "strip_scheme (scheme @ h @ slash) = h @ slash"
    using a strip_scheme_https [of "h @ slash"] strip_scheme_http [of "h @ slash"]
      strip_scheme_none [of "h @ slash"] by auto
  have 2: "strip_trailing_slash (h @ slash) = h"
    using a strip_trailing_slash_snoc [of h] strip_trailing_slash_none [of h] by auto
  show "buildEndpoint \<lparr> storeUrl = scheme @ h @ slash, accessToken = token, apiVersion = version \<rparr>
          = ''https://'' @ h @ ''/admin/api/'' @ version @ ''/graphql.json''"
    by (simp add: buildEndpoint_def 1 2 del: append.simps)
qed

theorem endpoint_of_store_url_witness:
  "map_sum id endpoint
        (new_ShopifyGraphQLClient
           \<lparr> storeUrl_opt = Some ''shop.myshopify.com'', accessToken_opt = Some ''tok'',
             apiVersion_opt = None \<rparr> Map.empty)
      = Inr ''https://shop.myshopify.com/admin/api/2025-01/graphql.json''
   \<and> buildEndpoint \<lparr> storeUrl = ''https://shop.myshopify.com/'', accessToken = ''tok'', apiVersion = ''2024-10'' \<rparr>
      = ''https://shop.myshopify.com/admin/api/2024-10/graphql.json''
   \<and> buildEndpoint \<lparr> storeUrl = ''http://shop.myshopify.com'', accessToken = ''tok'', apiVersion = ''2024-10'' \<rparr>
      = ''https://shop.myshopify.com/admin/api/2024-10/graphql.json''
   \<and> buildEndpoint \<lparr> storeUrl = ''shop.myshopify.com/'', accessToken = ''tok'', apiVersion = ''2024-10'' \<rparr>
      = ''https://shop.myshopify.com/admin/api/2024-10/graphql.json''"
  using endpoint_of_store_url [of Map.empty "''https://''" "''shop.myshopify.com''" "''/''" "''tok''" "''2024-10''"]
        endpoint_of_store_url [of Map.empty "''http://''" "''shop.myshopify.com''" "[]" "''tok''" "''2024-10''"]
        endpoint_of_store_url [of Map.empty "[]" "''shop.myshopify.com''" "''/''" "''tok''" "''2024-10''"]
  by (simp add: startsWith_def)

subsection \<open>Mutation results\<close>

lemma mutate_response:
  assumes "request s mutation variables = (Inr response, s')"
  shows "mutate request mutation variables mutationName s =
     (Inr (case result_userErrors response (result_key mutationName response) of
             Some ues \<Rightarrow>
               if ues \<noteq> [] then \<lparr> MutationResult.success = False, MutationResult.data = None, userErrors = ues \<rparr>
               else \<lparr> MutationResult.success = True, MutationResult.data = Some response, userErrors = [] \<rparr>
           | None \<Rightarrow> \<lparr> MutationResult.success = True, MutationResult.data = Some response, userErrors = [] \<rparr>), s')"
  using assms by (simp add: mutate_def Let_def split: option.splits)

lemma selected_key_result_key:
  "selected_key mutationName response k \<Longrightarrow> result_key mutationName response = k"
  by (auto simp: selected_key_def result_key_def first_key_def)

lemma result_userErrors_empty: "result_userErrors [] k = None"
  by (simp add: result_userErrors_def)

lemma not_selected_empty:
  assumes "\<forall>k. \<not> selected_key mutationName response k"
  shows "response = []"
proof (cases mutationName)
  case None
  then show ?thesis using assms by (cases response) (auto simp: selected_key_def)
next
  case (Some n)
  then show ?thesis using assms by (cases response; cases "n = []") (auto simp: selected_key_def)
qed

lemma result_userErrors_Some_iff:
  "result_userErrors response k = Some es \<longleftrightarrow> userErrors_under response k es"
  by (auto simp: result_userErrors_def userErrors_under_def split: option.splits root_value.splits)

text \<open>
  C1. For every response object that the transport resolves to, \<open>mutate\<close> returns
  normally (it does not throw): when the \<open>userErrors\<close> array under the result key (the
  supplied name, or else the first top-level key of the response) is not empty the result
  is \<open>{ success: false, data: null, userErrors: <that array> }\<close>, and otherwise it is
  \<open>{ success: true, data: <the entire response>, userErrors: [] }\<close>.
\<close>

theorem mutate_envelope:
  assumes "request s mutation variables = (Inr response, s')"
  shows "(\<forall>k es. selected_key mutationName response k \<and> userErrors_under response k es \<and> es \<noteq> [] \<longrightarrow>
            mutate request mutation variables mutationName s
              = (Inr \<lparr> MutationResult.success = False, MutationResult.data = None, userErrors = es \<rparr>, s'))
       \<and> ((\<nexists>k es. selected_key mutationName response k \<and> userErrors_under response k es \<and> es \<noteq> []) \<longrightarrow>
            mutate request mutation variables mutationName s
              = (Inr \<lparr> MutationResult.success = True, MutationResult.data = Some response, userErrors = [] \<rparr>, s'))"
proof (intro conjI allI impI)
  fix k es
  assume a: "selected_key mutationName response k \<and> userErrors_under response k es \<and> es \<noteq> []"
  then have "result_key mutationName response = k"
    and "result_userErrors response k = Some es" and "es \<noteq> []"
    by (simp_all add: selected_key_result_key result_userErrors_Some_iff)
  then show "mutate request mutation variables mutationName s
              = (Inr \<lparr> MutationResult.success = False, MutationResult.data = None, userErrors = es \<rparr>, s')"
    by (simp add: mutate_response [of request s mutation variables response s', OF assms])
next
  assume n: "\<nexists>k es. selected_key mutationName response k \<and> userErrors_under response k es \<and> es \<noteq> []"
  let ?key = "result_key mutationName response"
  have "result_userErrors response ?key = None \<or> result_userErrors response ?key = Some []"
  proof (cases "\<exists>k. selected_key mutationName response k")
    case True
    then obtain k where k: "selected_key mutationName response k" by blast
    then have "?key = k" by (rule selected_key_result_key)
    with n k show ?thesis
      by (cases "result_userErrors response k") (auto simp: result_userErrors_Some_iff)
  next
    case False
    then have "response = []" using not_selected_empty by blast
    then show ?thesis by (simp add: result_userErrors_empty)
  qed
  then show "mutate request mutation variables mutationName s
              = (Inr \<lparr> MutationResult.success = True, MutationResult.data = Some response, userErrors = [] \<rparr>, s')"
    by (auto simp: mutate_response [of request s mutation variables response s', OF assms])
qed

text \<open>
  A rejected mutation read under the first key, an accepted one read under the supplied
  name, and a rejected one where the supplied name is empty and the first key is used.
\<close>

theorem mutate_envelope_witness:
  "mutate (\<lambda>s m v. (Inr [(''productCreate'',
                           Obj (Some [\<lparr> field = Some [''title''], message = ''is blank'', code = None \<rparr>]) ())], s))
     ''mutation'' None None (0::nat)
     = (Inr \<lparr> MutationResult.success = False, MutationResult.data = None,
              userErrors = [\<lparr> field = Some [''title''], message = ''is blank'', code = None \<rparr>] \<rparr>, 0)
   \<and> mutate (\<lambda>s m v. (Inr [(''productCreate'', Obj (Some ([] :: ShopifyUserError list)) ())], s))
     ''mutation'' None (Some ''productCreate'') (0::nat)
     = (Inr \<lparr> MutationResult.success = True,
              MutationResult.data = Some [(''productCreate'', Obj (Some []) ())],
              userErrors = [] \<rparr>, 0)
   \<and> mutate (\<lambda>s m v. (Inr [(''orderUpdate'', Obj (Some [7::nat]) ())], s))
     ''mutation'' None (Some []) (0::nat)
     = (Inr \<lparr> MutationResult.success = False, MutationResult.data = None, userErrors = [7] \<rparr>, 0)"
proof -
  have rejected: "mutate (\<lambda>s m v. (Inr [(''productCreate'',
                           Obj (Some [\<lparr> field = Some [''title''], message = ''is blank'', code = None \<rparr>]) ())], s))
     ''mutation'' None None (0::nat)
     = (Inr \<lparr> MutationResult.success = False, MutationResult.data = None,
              userErrors = [\<lparr> field = Some [''title''], message = ''is blank'', code = None \<rparr>] \<rparr>, 0)"
    using mutate_envelope
      [of "\<lambda>s m v. (Inr [(''productCreate'',
                           Obj (Some [\<lparr> field = Some [''title''], message = ''is blank'', code = None \<rparr>]) ())], s)"
          0 "''mutation''" None _ 0 None]
    by (auto simp: selected_key_def userErrors_under_def)
  have accepted: "mutate (\<lambda>s m v. (Inr [(''productCreate'', Obj (Some ([] :: ShopifyUserError list)) ())], s))
     ''mutation'' None (Some ''productCreate'') (0::nat)
     = (Inr \<lparr> MutationResult.success = True,
              MutationResult.data = Some [(''productCreate'', Obj (Some []) ())],
              userErrors = [] \<rparr>, 0)"
    using mutate_envelope
      [of "\<lambda>s m v. (Inr [(''productCreate'', Obj (Some ([] :: ShopifyUserError list)) ())], s)"
          0 "''mutation''" None _ 0 "Some ''productCreate''"]
    by (auto simp: selected_key_def userErrors_under_def)
  have empty_name: "mutate (\<lambda>s m v. (Inr [(''orderUpdate'', Obj (Some [7::nat]) ())], s))
     ''mutation'' None (Some []) (0::nat)
     = (Inr \<lparr> MutationResult.success = False, MutationResult.data = None, userErrors = [7] \<rparr>, 0)"
    using mutate_envelope
      [of "\<lambda>s m v. (Inr [(''orderUpdate'', Obj (Some [7::nat]) ())], s)"
          0 "''mutation''" None _ 0 "Some []",
        THEN conjunct1, rule_format, where k = "''orderUpdate''" and es = "[7]"]
    by (simp add: selected_key_def userErrors_under_def)
  show ?thesis using rejected accepted empty_name by simp
qed

text \<open>
  C10. When the response object is empty, the selected result key is absent, or the value
  under it has no \<open>userErrors\<close> array (it is \<open>null\<close>, no object, or an object without the
  member), \<open>mutate\<close> does not throw and returns
  \<open>{ success: true, data: <the entire response>, userErrors: [] }\<close>.
\<close>

theorem mutate_without_userErrors:
  assumes "request s mutation variables = (Inr response, s')"
  shows "response = []
         \<or> (\<exists>k. selected_key mutationName response k
                \<and> (map_of response k = None \<or> map_of response k = Some Nullish
                    \<or> (\<exists>x. map_of response k = Some (Scalar x))
                    \<or> (\<exists>rest. map_of response k = Some (Obj None rest)))) \<longrightarrow>
         mutate request mutation variables mutationName s
           = (Inr \<lparr> MutationResult.success = True, MutationResult.data = Some response, userErrors = [] \<rparr>, s')"
proof
  assume "response = []
         \<or> (\<exists>k. selected_key mutationName response k
                \<and> (map_of response k = None \<or> map_of response k = Some Nullish
                    \<or> (\<exists>x. map_of response k = Some (Scalar x))
                    \<or> (\<exists>rest. map_of response k = Some (Obj None rest))))"
  then have "result_userErrors response (result_key mutationName response) = None"
  proof
    assume "response = []"
    then show ?thesis by (simp add: result_userErrors_empty)
  next
    assume "\<exists>k. selected_key mutationName response k
                \<and> (map_of response k = None \<or> map_of response k = Some Nullish
                    \<or> (\<exists>x. map_of response k = Some (Scalar x))
                    \<or> (\<exists>rest. map_of response k = Some (Obj None rest)))"
    then obtain k where k: "selected_key mutationName response k"
      and v: "map_of response k = None \<or> map_of response k = Some Nullish
                    \<or> (\<exists>x. map_of response k = Some (Scalar x))
                    \<or> (\<exists>rest. map_of response k = Some (Obj None rest))" by blast
    have "result_key mutationName response = k" using k by (rule selected_key_result_key)
    moreover have "result_userErrors response k = None"
      using v by (auto simp: result_userErrors_def)
    ultimately show ?thesis by simp
  qed
  then show "mutate request mutation variables mutationName s
           = (Inr \<lparr> MutationResult.success = True, MutationResult.data = Some response, userErrors = [] \<rparr>, s')"
    by (simp add: mutate_response [of request s mutation variables response s', OF assms])
qed

theorem mutate_without_userErrors_witness:
  "mutate (\<lambda>s m v. (Inr ([] :: (ShopifyUserError, unit) response), s)) ''mutation'' None None (0::nat)
     = (Inr \<lparr> MutationResult.success = True, MutationResult.data = Some [], userErrors = [] \<rparr>, 0)
   \<and> mutate (\<lambda>s m v. (Inr [(''productCreate'', Obj (None :: ShopifyUserError list option) ())], s))
        ''mutation'' None None (0::nat)
     = (Inr \<lparr> MutationResult.success = True,
              MutationResult.data = Some [(''productCreate'', Obj None ())], userErrors = [] \<rparr>, 0)
   \<and> mutate (\<lambda>s m v. (Inr [(''productCreate'', Obj (Some [1::nat]) ())], s))
        ''mutation'' None (Some ''productUpdate'') (0::nat)
     = (Inr \<lparr> MutationResult.success = True,
              MutationResult.data = Some [(''productCreate'', Obj (Some [1]) ())], userErrors = [] \<rparr>, 0)
   \<and> mutate (\<lambda>s m v. (Inr [(''productCreate'', (Nullish :: (nat, unit) root_value))], s))
        ''mutation'' None None (0::nat)
     = (Inr \<lparr> MutationResult.success = True,
              MutationResult.data = Some [(''productCreate'', Nullish)], userErrors = [] \<rparr>, 0)"
  using mutate_without_userErrors
      [of "\<lambda>s m v. (Inr ([] :: (ShopifyUserError, unit) response), s)" 0 "''mutation''" None _ 0 None]
    mutate_without_userErrors
      [of "\<lambda>s m v. (Inr [(''productCreate'', Obj (None :: ShopifyUserError list option) ())], s)"
          0 "''mutation''" None _ 0 None]
    mutate_without_userErrors
      [of "\<lambda>s m v. (Inr [(''productCreate'', Obj (Some [1::nat]) ())], s)"
          0 "''mutation''" None _ 0 "Some ''productUpdate''"]
    mutate_without_userErrors
      [of "\<lambda>s m v. (Inr [(''productCreate'', (Nullish :: (nat, unit) root_value))], s)"
          0 "''mutation''" None _ 0 None]
  by (auto simp: selected_key_def)

subsection \<open>The handler-layer error converter\<close>









text \<open>
  The codes \<open>handleToolError\<close> computes for the four classes without user errors; none
  of them is an entry of the table \<open>ErrorCodes\<close>.
\<close>

lemma handleToolError_class_codes:
  "map (\<lambda>e. map_option code
              (error (handleToolError e :: (unit, ShopifyUserError list) ToolResult)))
     [ShopifyAPIError m, ShopifyRateLimitError m, ShopifyAuthenticationError m,
      ShopifyNotFoundError m]
   = [Some ''API'', Some ''RATELIMIT'', Some ''AUTHENTICATION'', Some ''NOTFOUND'']
   \<and> set [''API'', ''RATELIMIT'', ''AUTHENTICATION'', ''NOTFOUND''] \<inter> set ErrorCodes = {}"
  by (simp add: handleToolError_def errorResult_def startsWith_def toUpperCase_def
      upper_char_def ErrorCodes_def)

subsection \<open>The identifier codec\<close>

lemma first_some_None: "(\<And>x. x \<in> set xs \<Longrightarrow> f x = None) \<Longrightarrow> first_some f xs = None"
  by (induction xs) auto

lemma slash_not_word: "\<not> is_word CHR ''/''"
  by (simp add: is_word_def)

lemma slash_digits_word: "is_word c \<Longrightarrow> slash_digits (c # u) = None"
  using slash_not_word by (auto simp: slash_digits_def)

lemma takeWhile_nth_word:
  assumes "k < length (takeWhile P r)"
  shows "\<exists>u. drop k r = (r ! k) # u \<and> P (r ! k)"
proof -
  have kl: "k < length r" using assms length_takeWhile_le [of P r] by simp
  have "takeWhile P r ! k = r ! k" using assms by (rule takeWhile_nth)
  moreover have "P (takeWhile P r ! k)"
    using assms nth_mem [of k "takeWhile P r"] set_takeWhileD [of _ P r] by blast
  ultimately have "P (r ! k)" by simp
  moreover have "drop k r = (r ! k) # drop (Suc k) r" using kl by (simp add: Cons_nth_drop_Suc)
  ultimately show ?thesis by blast
qed

lemma backtrack_word_run:
  "first_some (\<lambda>k. slash_digits (drop k r)) (rev [1..<Suc (length (takeWhile is_word r))])
     = (if takeWhile is_word r = [] then None else slash_digits (dropWhile is_word r))"
proof (cases "takeWhile is_word r = []")
  case True
  then show ?thesis by simp
next
  case False
  define n where "n = length (takeWhile is_word r)"
  have n: "0 < n" using False by (simp add: n_def)
  have shorter: "first_some (\<lambda>k. slash_digits (drop k r)) (rev [1..<n]) = None"
  proof (rule first_some_None)
    fix k assume "k \<in> set (rev [1..<n])"
    then have "k < length (takeWhile is_word r)" by (simp add: n_def)
    then obtain u where "drop k r = (r ! k) # u" and "is_word (r ! k)"
      using takeWhile_nth_word by blast
    then show "slash_digits (drop k r) = None" by (simp add: slash_digits_word)
  qed
  have "drop n r = dropWhile is_word r" by (simp add: n_def dropWhile_eq_drop)
  moreover have "rev [1..<Suc n] = n # rev [1..<n]" using n by simp
  ultimately have "first_some (\<lambda>k. slash_digits (drop k r)) (rev [1..<Suc n])
      = (case slash_digits (dropWhile is_word r) of Some y \<Rightarrow> Some y | None \<Rightarrow> None)"
    using shorter by (simp split: option.splits)
  then show ?thesis using False by (simp add: n_def split: option.splits)
qed

lemma match_here_eq:
  "match_here s =
     (if startsWith s gid_prefix then
        (let r = drop (length gid_prefix) s in
         if takeWhile is_word r = [] then None else slash_digits (dropWhile is_word r))
      else None)"
  unfolding match_here_def Let_def backtrack_word_run by (rule refl)

lemma slash_digits_Some:
  "slash_digits r = Some d \<longleftrightarrow> (\<exists>u. r = CHR ''/'' # u \<and> d = takeWhile is_digit u \<and> d \<noteq> [])"
  by (cases r) (auto simp: slash_digits_def Let_def)

lemma match_here_sound:
  assumes "match_here s = Some d"
  shows "matches_here s"
proof -
  from assms have p: "startsWith s gid_prefix" by (simp add: match_here_eq split: if_splits)
  then obtain r where s: "s = gid_prefix @ r" by (auto simp: startsWith_iff)
  have r: "drop (length gid_prefix) s = r" by (simp add: s)
  from assms p r have w: "takeWhile is_word r \<noteq> []"
    and sd: "slash_digits (dropWhile is_word r) = Some d"
    by (simp_all add: match_here_eq Let_def split: if_splits)
  from sd obtain u where u: "dropWhile is_word r = CHR ''/'' # u"
    and d: "d = takeWhile is_digit u" and dn: "d \<noteq> []"
    by (auto simp: slash_digits_Some)
  have "r = takeWhile is_word r @ dropWhile is_word r" by simp
  also have "\<dots> = takeWhile is_word r @ ''/'' @ d @ dropWhile is_digit u"
    by (simp add: u d)
  finally have "s = gid_prefix @ takeWhile is_word r @ ''/'' @ d @ dropWhile is_digit u"
    by (simp add: s)
  moreover have "list_all is_word (takeWhile is_word r)"
    by (simp add: list_all_iff) (meson set_takeWhileD)
  moreover have "list_all is_digit d"
    unfolding d by (simp add: list_all_iff) (meson set_takeWhileD)
  ultimately show ?thesis using w dn unfolding matches_here_def by blast
qed

lemma takeWhile_word_slash:
  "list_all is_word w \<Longrightarrow> takeWhile is_word (w @ CHR ''/'' # u) = w"
  using slash_not_word by (induction w) auto

lemma dropWhile_word_slash:
  "list_all is_word w \<Longrightarrow> dropWhile is_word (w @ CHR ''/'' # u) = CHR ''/'' # u"
  using slash_not_word by (induction w) auto

lemma takeWhile_digit_prefix:
  "list_all is_digit d \<Longrightarrow> d \<noteq> [] \<Longrightarrow> takeWhile is_digit (d @ rest) \<noteq> []"
  by (cases d) auto

lemma match_here_complete:
  assumes "matches_here s"
  shows "\<exists>d. match_here s = Some d"
proof -
  from assms obtain w d rest where s: "s = gid_prefix @ w @ ''/'' @ d @ rest"
    and w: "w \<noteq> []" "list_all is_word w" and d: "d \<noteq> []" "list_all is_digit d"
    unfolding matches_here_def by blast
  have p: "startsWith s gid_prefix" by (auto simp: startsWith_iff s)
  have r: "drop (length gid_prefix) s = w @ CHR ''/'' # (d @ rest)" by (simp add: s)
  show ?thesis
    using w d takeWhile_digit_prefix [of d rest]
    by (simp add: match_here_eq p r Let_def takeWhile_word_slash dropWhile_word_slash
        slash_digits_def)
qed

lemma gid_match_sound: "gid_match g = Some d \<Longrightarrow> matches_pattern g"
proof (induction g)
  case Nil
  then have "matches_here []" using match_here_sound by simp
  then show ?case unfolding matches_pattern_def by blast
next
  case (Cons c cs)
  show ?case
  proof (cases "match_here (c # cs)")
    case None
    with Cons have "matches_pattern cs" by simp
    then obtain pre s where "cs = pre @ s" and "matches_here s"
      unfolding matches_pattern_def by blast
    then have "c # cs = (c # pre) @ s \<and> matches_here s" by simp
    then show ?thesis unfolding matches_pattern_def by blast
  next
    case (Some a)
    then have "matches_here (c # cs)" by (rule match_here_sound)
    then have "c # cs = [] @ (c # cs) \<and> matches_here (c # cs)" by simp
    then show ?thesis unfolding matches_pattern_def by blast
  qed
qed

lemma gid_match_complete: "matches_pattern g \<Longrightarrow> \<exists>d. gid_match g = Some d"
proof (induction g)
  case Nil
  then have "matches_here []" unfolding matches_pattern_def by simp
  then show ?case using match_here_complete by simp
next
  case (Cons c cs)
  from Cons.prems obtain pre s where g: "c # cs = pre @ s" and m: "matches_here s"
    unfolding matches_pattern_def by blast
  show ?case
  proof (cases "match_here (c # cs)")
    case (Some a)
    then show ?thesis by simp
  next
    case None
    have "pre \<noteq> []"
    proof
      assume "pre = []"
      then have "matches_here (c # cs)" using g m by simp
      then show False using match_here_complete None by fastforce
    qed
    then obtain ps where "pre = c # ps" and "cs = ps @ s" using g by (cases pre) auto
    then have "matches_pattern cs" using m unfolding matches_pattern_def by blast
    then show ?thesis using Cons.IH None by simp
  qed
qed

lemma fromGid_no_match: "\<not> matches_pattern g \<Longrightarrow> fromGid g = g"
  using gid_match_sound [of g] by (cases "gid_match g") (auto simp: fromGid_def)

lemma fromGid_match: "matches_pattern g \<Longrightarrow> \<exists>d. gid_match g = Some d \<and> fromGid g = d"
  using gid_match_complete [of g] by (auto simp: fromGid_def)

lemma matches_pattern_code: "matches_pattern g = (gid_match g \<noteq> None)"
  using gid_match_sound [of g] gid_match_complete [of g] by auto

lemma gid_match_here: "match_here g = Some d \<Longrightarrow> gid_match g = Some d"
  by (cases g) simp_all

lemma takeWhile_all: "list_all P d \<Longrightarrow> takeWhile P d = d"
  by (simp add: list_all_iff)

lemma match_here_gid:
  assumes "t \<noteq> []" "list_all is_word t" "d \<noteq> []" "list_all is_digit d"
  shows "match_here (gid_prefix @ t @ ''/'' @ d) = Some d"
proof -
  have p: "startsWith (gid_prefix @ t @ ''/'' @ d) gid_prefix" by (auto simp: startsWith_iff)
  have r: "drop (length gid_prefix) (gid_prefix @ t @ ''/'' @ d) = t @ CHR ''/'' # d" by simp
  show ?thesis
    unfolding match_here_eq Let_def r
    using assms p
    by (simp add: takeWhile_word_slash dropWhile_word_slash slash_digits_def takeWhile_all)
qed

lemma digits_not_opaque:
  assumes "d \<noteq> []" "list_all is_digit d"
  shows "\<not> startsWith d gid_prefix"
proof
  assume "startsWith d gid_prefix"
  then obtain r where "d = gid_prefix @ r" by (auto simp: startsWith_iff)
  then have "CHR ''g'' \<in> set d" by (simp add: gid_prefix_def)
  then have "is_digit CHR ''g''" using assms(2) by (simp add: list_all_iff)
  then show False by (simp add: is_digit_def)
qed

lemma roundtrip_digits:
  assumes "t \<noteq> []" "list_all is_word t" "String_js i \<noteq> []" "list_all is_digit (String_js i)"
  shows "fromGid (toGid t i) = String_js i"
proof -
  have "toGid t i = gid_prefix @ t @ ''/'' @ String_js i"
    using digits_not_opaque [OF assms(3,4)] by (simp add: toGid_def)
  moreover have "gid_match (gid_prefix @ t @ ''/'' @ String_js i) = Some (String_js i)"
    using match_here_gid [OF assms] by (rule gid_match_here)
  ultimately show ?thesis by (simp add: fromGid_def)
qed

lemma digit_char_is_digit: "is_digit (digit_char d)"
proof -
  have "d mod 10 < length ''0123456789''" by simp
  then have "''0123456789'' ! (d mod 10) \<in> set ''0123456789''" by (rule nth_mem)
  then show ?thesis unfolding is_digit_def digit_char_def .
qed

lemma decimal_digits: "decimal n \<noteq> [] \<and> list_all is_digit (decimal n)"
proof (induction n rule: decimal.induct)
  case (1 n)
  show ?case
  proof (cases "n < 10")
    case True
    then have "decimal n = [digit_char n]" by (subst decimal.simps) simp
    then show ?thesis by (simp add: digit_char_is_digit)
  next
    case False
    then have "decimal n = decimal (n div 10) @ [digit_char (n mod 10)]"
      by (subst decimal.simps) simp
    then show ?thesis using 1 False by (simp add: digit_char_is_digit)
  qed
qed

text \<open>
  C7. Neither direction of the codec can fail (both are total functions), and malformed
  input is returned unchanged: \<open>toGid\<close> returns a string that already begins with
  \<open>gid://shopify/\<close> as it is, whatever the type tag, and \<open>fromGid\<close> returns a string in
  which the pattern \<open>gid://shopify/\w+/(\d+)\<close> matches nowhere as it is.
\<close>

theorem codec_identity_fallbacks:
  "((\<exists>r. g = ''gid://shopify/'' @ r) \<longrightarrow> toGid t (IdStr g) = g)
   \<and> (\<not> matches_pattern g \<longrightarrow> fromGid g = g)"
proof (intro conjI impI)
  assume "\<exists>r. g = ''gid://shopify/'' @ r"
  then have "startsWith g gid_prefix" by (simp add: startsWith_iff gid_prefix_def)
  then show "toGid t (IdStr g) = g" by (simp add: toGid_def)
next
  assume "\<not> matches_pattern g"
  then show "fromGid g = g" by (rule fromGid_no_match)
qed

theorem codec_identity_fallbacks_witness:
  "toGid ''Order'' (IdStr ''gid://shopify/Product/42'') = ''gid://shopify/Product/42''
   \<and> fromGid ''product-handle'' = ''product-handle''
   \<and> fromGid ''gid://shopify/Product/abc'' = ''gid://shopify/Product/abc''"
  using codec_identity_fallbacks [of "''gid://shopify/Product/42''" "''Order''"]
    codec_identity_fallbacks [of "''product-handle''" "''Order''"]
    codec_identity_fallbacks [of "''gid://shopify/Product/abc''" "''Order''"]
  by (simp add: matches_pattern_code match_here_def gid_prefix_def startsWith_def
      slash_digits_def is_word_def is_digit_def)

text \<open>
  C4, as the code has it. For every type tag of one or more word characters and every
  numeric short identifier (a non-empty string of decimal digits, or a non-negative
  integer number below \<open>10^21\<close>), \<open>fromGid (toGid t s)\<close> is the stringified form of \<open>s\<close>.
\<close>

theorem numeric_id_roundtrip:
  assumes "t \<noteq> []" and "list_all is_word t"
    and "(\<exists>s. i = IdStr s \<and> s \<noteq> [] \<and> list_all is_digit s)
         \<or> (\<exists>n. i = IdNum n \<and> 0 \<le> n \<and> n < 10 ^ 21)"
  shows "fromGid (toGid t i) = String_js i"
proof -
  have "String_js i \<noteq> [] \<and> list_all is_digit (String_js i)"
    using assms(3) decimal_digits by auto
  then show ?thesis using assms(1,2) roundtrip_digits by blast
qed

theorem numeric_id_roundtrip_witness:
  "fromGid (toGid ''Product'' (IdStr ''0042'')) = ''0042''
   \<and> fromGid (toGid ''ProductVariant'' (IdNum 1234567890123)) = String_js (IdNum 1234567890123)"
  using numeric_id_roundtrip [of "''Product''" "IdStr ''0042''"]
    numeric_id_roundtrip [of "''ProductVariant''" "IdNum 1234567890123"]
  by (simp add: is_word_def is_digit_def)

text \<open>
  The round trip does not hold for every short identifier and type tag: \<open>fromGid\<close> finds
  only digits after \<open>gid://shopify/\w+/\<close>, so a handle, a negative number or an empty type
  tag comes back as the whole encoded string.
\<close>

theorem short_id_roundtrip_counterexample:
  "fromGid (toGid ''Product'' (IdStr ''summer-sale'')) \<noteq> String_js (IdStr ''summer-sale'')
   \<and> fromGid (toGid ''Product'' (IdNum (- 5))) \<noteq> String_js (IdNum (- 5))
   \<and> fromGid (toGid [] (IdStr ''42'')) \<noteq> String_js (IdStr ''42'')"
  by (simp add: fromGid_def toGid_def gid_prefix_def startsWith_def match_here_def
      slash_digits_def is_word_def is_digit_def)

subsection \<open>Pagination\<close>

lemma queryAll_loop_page:
  assumes "request s document (Some (with_after variables cursor)) = (Inr response, s')"
    and "extractNodes response = Inr page"
  shows "queryAll_loop request document variables extractNodes allNodes cursor console s =
     (if length (allNodes @ nodes page) > 10000 then
        Some (Inr (allNodes @ nodes page), console @ [pagination_warning], s')
      else if hasNextPage (Page.pageInfo page) then
        queryAll_loop request document variables extractNodes (allNodes @ nodes page)
          (endCursor (Page.pageInfo page)) console s'
      else Some (Inr (allNodes @ nodes page), console, s'))"
  by (subst queryAll_loop.simps) (simp add: query_def assms Let_def)

lemma queryAll_loop_request_throws:
  assumes "request s document (Some (with_after variables cursor)) = (Inl e, s')"
  shows "queryAll_loop request document variables extractNodes allNodes cursor console s =
     Some (Inl (handleError e), console, s')"
  by (subst queryAll_loop.simps) (simp add: query_def assms)

lemma queryAll_loop_extract_throws:
  assumes "request s document (Some (with_after variables cursor)) = (Inr response, s')"
    and "extractNodes response = Inl e"
  shows "queryAll_loop request document variables extractNodes allNodes cursor console s =
     Some (Inl e, console, s')"
  by (subst queryAll_loop.simps) (simp add: query_def assms)

lemma queryAll_loop_progress:
  assumes progress: "\<And>response page. extractNodes response = Inr page \<Longrightarrow> nodes page \<noteq> []"
  shows "\<exists>r. queryAll_loop request document variables extractNodes allNodes cursor console s
           = Some r"
proof (induction "10001 - length allNodes" arbitrary: allNodes cursor s rule: less_induct)
  case less
  obtain outcome s' where req: "request s document (Some (with_after variables cursor)) = (outcome, s')"
    by (cases "request s document (Some (with_after variables cursor))") auto
  show ?case
  proof (cases outcome)
    case (Inl e)
    with req have r: "request s document (Some (with_after variables cursor)) = (Inl e, s')"
      by simp
    show ?thesis
      by (simp add: queryAll_loop_request_throws [of request s document variables cursor e s', OF r])
  next
    case (Inr response)
    note resp = this
    show ?thesis
    proof (cases "extractNodes response")
      case (Inl e)
      from req resp have r: "request s document (Some (with_after variables cursor)) = (Inr response, s')"
        by simp
      show ?thesis
        by (simp add: queryAll_loop_extract_throws
            [of request s document variables cursor response s' extractNodes e, OF r Inl])
    next
      case (Inr page)
      from req resp have r: "request s document (Some (with_after variables cursor)) = (Inr response, s')"
        by simp
      note step = queryAll_loop_page
          [of request s document variables cursor response s' extractNodes page allNodes console,
            OF r Inr]
      show ?thesis
      proof (cases "length (allNodes @ nodes page) > 10000")
        case True
        then show ?thesis using step by simp
      next
        case False
        have "nodes page \<noteq> []" using progress Inr by blast
        then have "10001 - length (allNodes @ nodes page) < 10001 - length allNodes"
          using False by (cases "nodes page") auto
        then have "\<exists>r. queryAll_loop request document variables extractNodes (allNodes @ nodes page)
              (endCursor (Page.pageInfo page)) console s' = Some r"
          by (rule less)
        then show ?thesis using step False by auto
      qed
    qed
  qed
qed




lemma queryAll_loop_last_page:
  assumes "request s document (Some (with_after variables cursor)) = (Inr response, s')"
    and "extractNodes response = Inr page"
    and "\<not> hasNextPage (Page.pageInfo page)" and "length (allNodes @ nodes page) \<le> 10000"
  shows "queryAll_loop request document variables extractNodes allNodes cursor console s =
     Some (Inr (allNodes @ nodes page), console, s')"
  using assms(3,4)
    queryAll_loop_page [of request s document variables cursor response s' extractNodes page
      allNodes console, OF assms(1,2)]
  by simp

lemma queryAll_loop_next_page:
  assumes "request s document (Some (with_after variables cursor)) = (Inr response, s')"
    and "extractNodes response = Inr page"
    and "hasNextPage (Page.pageInfo page)" and "length (allNodes @ nodes page) \<le> 10000"
  shows "queryAll_loop request document variables extractNodes allNodes cursor console s =
     queryAll_loop request document variables extractNodes (allNodes @ nodes page)
          (endCursor (Page.pageInfo page)) console s'"
  using assms(3,4)
    queryAll_loop_page [of request s document variables cursor response s' extractNodes page
      allNodes console, OF assms(1,2)]
  by simp

lemma queryAll_run_three:
  assumes "request s0 document (Some (with_after variables None)) = (Inr r1, s1)"
    and "extractNodes r1 = Inr p1" and "hasNextPage (Page.pageInfo p1)"
    and "request s1 document (Some (with_after variables (endCursor (Page.pageInfo p1)))) = (Inr r2, s2)"
    and "extractNodes r2 = Inr p2" and "hasNextPage (Page.pageInfo p2)"
    and "request s2 document (Some (with_after variables (endCursor (Page.pageInfo p2)))) = (Inr r3, s3)"
    and "extractNodes r3 = Inr p3" and "\<not> hasNextPage (Page.pageInfo p3)"
    and "length (nodes p1 @ nodes p2 @ nodes p3) \<le> 10000"
  shows "queryAll request document variables extractNodes s0
           = Some (Inr (nodes p1 @ nodes p2 @ nodes p3), [], s3)"
proof -
  have 1: "queryAll_loop request document variables extractNodes [] None [] s0
      = queryAll_loop request document variables extractNodes ([] @ nodes p1)
          (endCursor (Page.pageInfo p1)) [] s1"
    using assms(3,10)
    by (intro queryAll_loop_next_page
        [of request s0 document variables None r1 s1 extractNodes p1 "[]" "[]", OF assms(1,2)])
      simp_all
  have 2: "queryAll_loop request document variables extractNodes ([] @ nodes p1)
          (endCursor (Page.pageInfo p1)) [] s1
      = queryAll_loop request document variables extractNodes (([] @ nodes p1) @ nodes p2)
          (endCursor (Page.pageInfo p2)) [] s2"
    using assms(6,10)
    by (intro queryAll_loop_next_page
        [of request s1 document variables "endCursor (Page.pageInfo p1)" r2 s2 extractNodes p2
          "[] @ nodes p1" "[]", OF assms(4,5)])
      simp_all
  have 3: "queryAll_loop request document variables extractNodes (([] @ nodes p1) @ nodes p2)
          (endCursor (Page.pageInfo p2)) [] s2
      = Some (Inr ((([] @ nodes p1) @ nodes p2) @ nodes p3), [], s3)"
    using assms(9,10)
    by (intro queryAll_loop_last_page
        [of request s2 document variables "endCursor (Page.pageInfo p2)" r3 s3 extractNodes p3
          "([] @ nodes p1) @ nodes p2" "[]", OF assms(7,8)])
      simp_all
  show ?thesis using 1 2 3 by (simp add: queryAll_def)
qed

lemma three_pages_run:
  "queryAll (cursor_server :: (unit, unit, unit var_value option) transport)
      ''query'' Map.empty three_pages ()
     = Some (Inr [30, 10, 50, 20, 40], [], ())"
  using queryAll_run_three [of cursor_server "()" "''query''" Map.empty "Some Null" "()"
      three_pages
      "\<lparr> nodes = [30, 10], pageInfo = \<lparr> hasNextPage = True, endCursor = Some ''c1'' \<rparr> \<rparr>"
      "Some (Str ''c1'')" "()"
      "\<lparr> nodes = [50, 20], pageInfo = \<lparr> hasNextPage = True, endCursor = Some ''c2'' \<rparr> \<rparr>"
      "Some (Str ''c2'')" "()"
      "\<lparr> nodes = [40], pageInfo = \<lparr> hasNextPage = False, endCursor = None \<rparr> \<rparr>"]
  by (simp add: cursor_server_def three_pages_def with_after_def)

text \<open>
  C8, as the code has it. Given three pages of sizes 2, 2 and 1 that report
  \<open>hasNextPage\<close> true, true, false (each requested with the cursor of the page before),
  \<open>queryAll\<close> returns the 5 items concatenated in page order, without a warning. What it
  returns is the array alone: no \<open>pageInfo\<close> comes with it.
\<close>

theorem queryAll_three_pages:
  assumes "request s0 document (Some (with_after variables None)) = (Inr r1, s1)"
    and "extractNodes r1 = Inr p1" and "length (nodes p1) = 2" and "hasNextPage (Page.pageInfo p1)"
    and "request s1 document (Some (with_after variables (endCursor (Page.pageInfo p1)))) = (Inr r2, s2)"
    and "extractNodes r2 = Inr p2" and "length (nodes p2) = 2" and "hasNextPage (Page.pageInfo p2)"
    and "request s2 document (Some (with_after variables (endCursor (Page.pageInfo p2)))) = (Inr r3, s3)"
    and "extractNodes r3 = Inr p3" and "length (nodes p3) = 1" and "\<not> hasNextPage (Page.pageInfo p3)"
  shows "queryAll request document variables extractNodes s0
           = Some (Inr (nodes p1 @ nodes p2 @ nodes p3), [], s3)
         \<and> length (nodes p1 @ nodes p2 @ nodes p3) = 5
         \<and> pageInfo_of (ArrayOf (nodes p1 @ nodes p2 @ nodes p3)) = None"
proof -
  have "length (nodes p1 @ nodes p2 @ nodes p3) \<le> 10000" using assms(3,7,11) by simp
  then have "queryAll request document variables extractNodes s0
           = Some (Inr (nodes p1 @ nodes p2 @ nodes p3), [], s3)"
    by (rule queryAll_run_three
        [of request s0 document variables r1 s1 extractNodes p1 r2 s2 p2 r3 s3 p3,
          OF assms(1,2,4,5,6,8,9,10,12)])
  then show ?thesis using assms(3,7,11) by simp
qed

theorem queryAll_three_pages_witness:
  "queryAll (cursor_server :: (unit, unit, unit var_value option) transport)
      ''query'' Map.empty three_pages ()
     = Some (Inr [30, 10, 50, 20, 40], [], ())"
  using queryAll_three_pages [of cursor_server "()" "''query''" Map.empty "Some Null" "()"
      three_pages
      "\<lparr> nodes = [30, 10], pageInfo = \<lparr> hasNextPage = True, endCursor = Some ''c1'' \<rparr> \<rparr>"
      "Some (Str ''c1'')" "()"
      "\<lparr> nodes = [50, 20], pageInfo = \<lparr> hasNextPage = True, endCursor = Some ''c2'' \<rparr> \<rparr>"
      "Some (Str ''c2'')" "()"
      "\<lparr> nodes = [40], pageInfo = \<lparr> hasNextPage = False, endCursor = None \<rparr> \<rparr>"]
  by (simp add: cursor_server_def three_pages_def with_after_def)

text \<open>
  On the mocked three pages \<open>queryAll\<close> returns the items in the order the pages gave
  them (not sorted), and the returned array has no \<open>pageInfo\<close> whose \<open>hasNextPage\<close> could
  be read.
\<close>

theorem queryAll_no_pageInfo_counterexample:
  "queryAll (cursor_server :: (unit, unit, unit var_value option) transport)
      ''query'' Map.empty three_pages ()
     = Some (Inr [30, 10, 50, 20, 40], [], ())
   \<and> pageInfo_of (ArrayOf [30, 10, 50, 20, 40 :: nat]) = None"
  using three_pages_run by simp









text \<open>
  The result with a \<open>pageInfo\<close> is the one \<open>combinePaginatedResults\<close> builds: the items
  of the pages in order, \<open>hasNextPage\<close> and \<open>endCursor\<close> of the last page,
  \<open>hasPreviousPage\<close> and \<open>startCursor\<close> of the first.
\<close>

lemma combinePaginatedResults_three:
  "combinePaginatedResults [a, b, c] =
     \<lparr> items = items a @ items b @ items c,
       pageInfo = \<lparr> hasNextPage = hasNextPage (pageInfo c), endCursor = endCursor (pageInfo c),
                    hasPreviousPage = hasPreviousPage (pageInfo a),
                    startCursor = startCursor (pageInfo a) \<rparr> \<rparr>"
  by (simp add: combinePaginatedResults_def)

end
